theory Spec2Isabelle
  imports Complex_Main "HOL-Library.Word" "HOL-Library.Log_Nat"
begin

section \<open>Performance metrics of \<^verbatim>\<open>UTILS/performance_metrics.py\<close>\<close>

text \<open>
  The module is a collection of pure functions over numpy arrays. The embedding keeps
  the shape of an array next to its row-major buffer, models every Python exception the
  functions can raise as a value of \<open>error\<close>, and models a numpy float result as
  \<open>npfloat\<close>: a real number, an infinity or NaN. Array elements are finite reals and
  float64 arithmetic on them is taken as exact real arithmetic; the two explicit casts of
  the source (\<^verbatim>\<open>astype(np.int8)\<close>, \<^verbatim>\<open>astype(np.float32)\<close>) are written out.
\<close>

subsection \<open>Arrays, errors and float results\<close>

datatype error = IndexError | ValueError | TypeError | KeyError

datatype npfloat = Finite real | PInf | NInf | NaN

datatype 'a ndarray = NDArray (shape: "nat list") (data: "'a list")

text \<open>\<^verbatim>\<open>a.ravel()\<close>: the row-major buffer as a one-dimensional array.\<close>

definition ravel :: "'a ndarray \<Rightarrow> 'a list" where
  "ravel a = data a"

text \<open>A one-dimensional array holding the given elements.\<close>

definition vec :: "'a list \<Rightarrow> 'a ndarray" where
  "vec xs = NDArray [length xs] xs"


text \<open>
  A binary operator on two one-dimensional arrays: elementwise on equal lengths, a
  length-one operand is broadcast, anything else is numpy's broadcast fault (for \<^verbatim>\<open>==\<close>
  too, as from numpy 1.25).
\<close>

definition elementwise :: "('a \<Rightarrow> 'b \<Rightarrow> 'c) \<Rightarrow> 'a list \<Rightarrow> 'b list \<Rightarrow> error + 'c list" where
  "elementwise f xs ys =
     (if length xs = length ys then Inr (map2 f xs ys)
      else if length xs = 1 then Inr (map (f (hd xs)) ys)
      else if length ys = 1 then Inr (map (\<lambda>x. f x (hd ys)) xs)
      else Inl ValueError)"

text \<open>\<^verbatim>\<open>.mean()\<close> and \<^verbatim>\<open>np.average\<close>: the sum over the count; 0/0 on an empty array is NaN.\<close>

definition np_mean :: "real list \<Rightarrow> npfloat" where
  "np_mean xs = (if xs = [] then NaN else Finite (sum_list xs / real (length xs)))"

text \<open>\<^verbatim>\<open>np.var\<close>: the mean of the squared deviations from the mean (population variance).\<close>

definition np_var :: "real list \<Rightarrow> npfloat" where
  "np_var xs =
     (if xs = [] then NaN
      else let m = sum_list xs / real (length xs)
           in Finite (sum_list (map (\<lambda>x. (x - m)\<^sup>2) xs) / real (length xs)))"

fun np_sqrt :: "npfloat \<Rightarrow> npfloat" where
  "np_sqrt (Finite r) = (if r < 0 then NaN else Finite (sqrt r))"
| "np_sqrt PInf = PInf"
| "np_sqrt NInf = NaN"
| "np_sqrt NaN = NaN"

text \<open>IEEE division of float scalars: a zero divisor gives an infinity or NaN, no exception.\<close>

fun np_divide :: "npfloat \<Rightarrow> npfloat \<Rightarrow> npfloat" where
  "np_divide (Finite a) (Finite b) =
     (if b \<noteq> 0 then Finite (a / b)
      else if 0 < a then PInf else if a < 0 then NInf else NaN)"
| "np_divide (Finite a) PInf = Finite 0"
| "np_divide (Finite a) NInf = Finite 0"
| "np_divide PInf (Finite b) = (if b < 0 then NInf else PInf)"
| "np_divide NInf (Finite b) = (if b < 0 then PInf else NInf)"
| "np_divide PInf PInf = NaN"
| "np_divide PInf NInf = NaN"
| "np_divide NInf PInf = NaN"
| "np_divide NInf NInf = NaN"
| "np_divide NaN y = NaN"
| "np_divide x NaN = NaN"

fun np_multiply :: "npfloat \<Rightarrow> npfloat \<Rightarrow> npfloat" where
  "np_multiply (Finite a) (Finite b) = Finite (a * b)"
| "np_multiply (Finite a) PInf = (if 0 < a then PInf else if a < 0 then NInf else NaN)"
| "np_multiply (Finite a) NInf = (if 0 < a then NInf else if a < 0 then PInf else NaN)"
| "np_multiply PInf (Finite b) = (if 0 < b then PInf else if b < 0 then NInf else NaN)"
| "np_multiply NInf (Finite b) = (if 0 < b then NInf else if b < 0 then PInf else NaN)"
| "np_multiply PInf PInf = PInf"
| "np_multiply PInf NInf = NInf"
| "np_multiply NInf PInf = NInf"
| "np_multiply NInf NInf = PInf"
| "np_multiply NaN y = NaN"
| "np_multiply x NaN = NaN"

text \<open>Rounding to the nearest integer, a tie going to the even neighbour (C \<^verbatim>\<open>rint\<close>).\<close>

definition round_half_even :: "real \<Rightarrow> int" where
  "round_half_even x =
     (let f = \<lfloor>x\<rfloor>; d = x - of_int f
      in if d < 1/2 then f else if 1/2 < d then f + 1 else if even f then f else f + 1)"

text \<open>\<^verbatim>\<open>np.around\<close> and \<^verbatim>\<open>np.round\<close> with zero decimals: \<^verbatim>\<open>rint\<close>, the result still a float.\<close>

definition np_around :: "real \<Rightarrow> real" where
  "np_around x = of_int (round_half_even x)"

subsection \<open>Regression metrics\<close>

text \<open>
  \<open>r_squared\<close> flattens its arrays and hands them to \<^verbatim>\<open>r2_score\<close> of scikit-learn,
  which is a parameter here.
\<close>

definition r_squared :: "(real list \<Rightarrow> real list \<Rightarrow> 'r) \<Rightarrow> real ndarray \<Rightarrow> real ndarray \<Rightarrow> 'r" where
  "r_squared r2_score y_pred y_true =
     (let y_pred = ravel y_pred; y_true = ravel y_true
      in r2_score y_true y_pred)"

definition rmse :: "real ndarray \<Rightarrow> real ndarray \<Rightarrow> error + npfloat" where
  "rmse y_pred y_true =
     (let y_pred = ravel y_pred; y_true = ravel y_true
      in case elementwise (\<lambda>p t. (p - t)\<^sup>2) y_pred y_true of
           Inl e \<Rightarrow> Inl e
         | Inr sq \<Rightarrow> Inr (np_sqrt (np_mean sq)))"

definition nmse :: "real ndarray \<Rightarrow> real ndarray \<Rightarrow> error + npfloat" where
  "nmse y_pred y_true =
     (let y_pred = ravel y_pred; y_true = ravel y_true
      in case elementwise (\<lambda>p t. (p - t)\<^sup>2) y_pred y_true of
           Inl e \<Rightarrow> Inl e
         | Inr sq \<Rightarrow> Inr (np_divide (np_mean sq) (np_var y_true)))"

subsection \<open>Classification accuracy\<close>

definition accuracy :: "real ndarray \<Rightarrow> real ndarray \<Rightarrow> error + npfloat" where
  "accuracy y_pred y_true =
     (let y_pred = ravel y_pred; y_true = ravel y_true
      in case elementwise (\<lambda>p t. np_around p = t) y_pred y_true of
           Inl e \<Rightarrow> Inl e
         | Inr hits \<Rightarrow> Inr (np_mean (map (\<lambda>h. if h then 1 else 0) hits)))"

text \<open>
  Sequencing of steps that can raise: the first exception ends the evaluation. A list
  comprehension evaluates its body on the items from left to right.
\<close>

definition and_then :: "error + 'a \<Rightarrow> ('a \<Rightarrow> error + 'b) \<Rightarrow> error + 'b" where
  "and_then m f = (case m of Inl e \<Rightarrow> Inl e | Inr x \<Rightarrow> f x)"

fun comprehension :: "('a \<Rightarrow> error + 'b) \<Rightarrow> 'a list \<Rightarrow> error + 'b list" where
  "comprehension f [] = Inr []"
| "comprehension f (x # xs) =
     and_then (f x) (\<lambda>y. and_then (comprehension f xs) (\<lambda>ys. Inr (y # ys)))"

text \<open>
  \<^verbatim>\<open>set(y_true)\<close> iterates in the order of CPython's hash table, which the language
  leaves open. \<open>accuracy_per_class\<close> takes that order as its first argument: a function
  from the array to the sequence in which the set yields its elements.

  \<^verbatim>\<open>astype(int)\<close> on the rounded predictions truncates to the 64-bit platform integer;
  a value outside its range becomes the minimum integer, as on x86-64.
\<close>

definition astype_int :: "real \<Rightarrow> int" where
  "astype_int x =
     (let k = (if 0 \<le> x then \<lfloor>x\<rfloor> else \<lceil>x\<rceil>)
      in if - (2 ^ 63) \<le> k \<and> k < 2 ^ 63 then k else - (2 ^ 63))"

text \<open>\<^verbatim>\<open>np.where(y_true == c)\<close>: the positions holding \<open>c\<close>, ascending.\<close>

definition np_where_eq :: "real list \<Rightarrow> real \<Rightarrow> nat list" where
  "np_where_eq t c = filter (\<lambda>i. t ! i = c) [0..<length t]"

text \<open>Indexing with an index array; a position beyond the end is an IndexError.\<close>

definition fancy_index :: "'a list \<Rightarrow> nat list \<Rightarrow> error + 'a list" where
  "fancy_index xs inds =
     comprehension (\<lambda>i. if i < length xs then Inr (xs ! i) else Inl IndexError) inds"

text \<open>
  The loop over the classes, with the list \<open>out\<close> it appends to. The inner call of
  \<open>accuracy\<close> receives the integer predictions; its own rounding leaves them unchanged.
\<close>

fun per_class_loop ::
  "int list \<Rightarrow> real list \<Rightarrow> (real \<times> npfloat) list \<Rightarrow> real list \<Rightarrow> error + (real \<times> npfloat) list" where
  "per_class_loop y_pred y_true out [] = Inr out"
| "per_class_loop y_pred y_true out (c # cs) =
     (let inds = np_where_eq y_true c
      in and_then (fancy_index y_pred inds) (\<lambda>ps.
         and_then (fancy_index y_true inds) (\<lambda>ts.
         and_then (accuracy (vec (map of_int ps)) (vec ts)) (\<lambda>acc.
         per_class_loop y_pred y_true (out @ [(c, acc)]) cs))))"

definition accuracy_per_class ::
  "(real list \<Rightarrow> real list) \<Rightarrow> real ndarray \<Rightarrow> real ndarray \<Rightarrow> error + (real \<times> npfloat) list" where
  "accuracy_per_class set_iter y_pred y_true =
     (let y_pred = ravel y_pred; y_true = ravel y_true;
          set_y = set_iter y_true;
          y_pred = map (\<lambda>p. astype_int (np_around p)) y_pred
      in per_class_loop y_pred y_true [] set_y)"

subsection \<open>Survival metrics\<close>

text \<open>The keyword arguments the metrics read; a missing key is a KeyError.\<close>

record kwargs =
  censor_flag :: "int ndarray option"
  survival_time :: "real ndarray option"

text \<open>\<^verbatim>\<open>astype(np.int8)\<close> on an integer: the low eight bits, read as a signed value.\<close>

definition astype_int8 :: "int \<Rightarrow> int" where
  "astype_int8 c = sint (word_of_int c :: 8 word)"

text \<open>
  Indexing a one-dimensional array with a boolean mask: the mask must have the array's
  length, and the entries under \<open>True\<close> are kept in order.
\<close>

definition mask_index :: "bool list \<Rightarrow> 'a list \<Rightarrow> error + 'a list" where
  "mask_index m xs =
     (if length m = length xs then Inr (map snd (filter fst (zip m xs))) else Inl IndexError)"

definition rmse_survival :: "real ndarray \<Rightarrow> real ndarray \<Rightarrow> kwargs \<Rightarrow> error + npfloat" where
  "rmse_survival y_pred y_true kw =
     (let y_pred = ravel y_pred; y_true = ravel y_true
      in case censor_flag kw of
           None \<Rightarrow> Inl KeyError
         | Some c \<Rightarrow>
             (let d = map astype_int8 (ravel c); ev = map (\<lambda>x. x = 1) d
              in and_then (mask_index ev y_pred) (\<lambda>ps.
                 and_then (mask_index ev y_true) (\<lambda>ts.
                 and_then (elementwise (\<lambda>p t. (p - t)\<^sup>2) ps ts) (\<lambda>sq.
                 Inr (np_sqrt (np_mean sq)))))))"

definition mse_survival :: "real ndarray \<Rightarrow> real ndarray \<Rightarrow> kwargs \<Rightarrow> error + npfloat" where
  "mse_survival y_pred y_true kw =
     (let y_pred = ravel y_pred; y_true = ravel y_true
      in case censor_flag kw of
           None \<Rightarrow> Inl KeyError
         | Some c \<Rightarrow>
             (let d = map astype_int8 (ravel c); ev = map (\<lambda>x. x = 1) d
              in and_then (mask_index ev y_pred) (\<lambda>ps.
                 and_then (mask_index ev y_true) (\<lambda>ts.
                 and_then (elementwise (\<lambda>p t. (p - t)\<^sup>2) ps ts) (\<lambda>sq.
                 Inr (np_mean sq))))))"

definition mae_survival :: "real ndarray \<Rightarrow> real ndarray \<Rightarrow> kwargs \<Rightarrow> error + npfloat" where
  "mae_survival y_pred y_true kw =
     (let y_pred = ravel y_pred; y_true = ravel y_true
      in case censor_flag kw of
           None \<Rightarrow> Inl KeyError
         | Some c \<Rightarrow>
             (let d = map astype_int8 (ravel c); ev = map (\<lambda>x. x = 1) d
              in and_then (mask_index ev y_pred) (\<lambda>ps.
                 and_then (mask_index ev y_true) (\<lambda>ts.
                 and_then (elementwise (\<lambda>p t. \<bar>p - t\<bar>) ps ts) (\<lambda>ab.
                 Inr (np_mean ab))))))"

subsection \<open>Concordance index\<close>

text \<open>
  \<open>c_index\<close> hands its arrays to the concordance routine of the lifelines library, which
  is a parameter here. Only the censoring flags are flattened on the way.
\<close>

definition c_index ::
  "(real ndarray \<Rightarrow> real ndarray \<Rightarrow> int list \<Rightarrow> 'r) \<Rightarrow> real ndarray \<Rightarrow> real ndarray \<Rightarrow> kwargs \<Rightarrow> error + 'r" where
  "c_index concordance_index y_pred y_true kw =
     (case censor_flag kw of
        None \<Rightarrow> Inl KeyError
      | Some c \<Rightarrow> Inr (concordance_index y_true y_pred (map astype_int8 (ravel c))))"

text \<open>
  \<^verbatim>\<open>astype(np.float32)\<close>: the nearest number with a 24-bit significand, a tie going to
  the even significand; below \<open>2\<^sup>-\<^sup>1\<^sup>2\<^sup>6\<close> the spacing stays \<open>2\<^sup>-\<^sup>1\<^sup>4\<^sup>9\<close>, and a result that
  reaches \<open>2\<^sup>1\<^sup>2\<^sup>8\<close> is an infinity. \<open>floor_log2 x\<close> is the exponent \<open>e\<close> with
  \<open>2\<^sup>e \<le> x < 2\<^sup>e\<^sup>+\<^sup>1\<close>, for positive \<open>x\<close>; \<open>bitlen n\<close> is the number of binary digits of \<open>n\<close>.
\<close>

definition floor_log2 :: "real \<Rightarrow> int" where
  "floor_log2 x =
     (if 1 \<le> x then bitlen \<lfloor>x\<rfloor> - 1
      else - bitlen (\<lceil>1 / x\<rceil> - 1))"

definition astype_float32 :: "real \<Rightarrow> npfloat" where
  "astype_float32 x =
     (if x = 0 then Finite 0
      else let e = max (floor_log2 \<bar>x\<bar>) (- 126);
               q = 2 powi (e - 23);
               r = of_int (round_half_even (x / q)) * q
           in if 2 ^ 128 \<le> \<bar>r\<bar> then (if 0 < x then PInf else NInf) else Finite r)"

fun np_less :: "npfloat \<Rightarrow> npfloat \<Rightarrow> bool" where
  "np_less (Finite a) (Finite b) = (a < b)"
| "np_less (Finite a) PInf = True"
| "np_less NInf (Finite b) = True"
| "np_less NInf PInf = True"
| "np_less x y = False"

definition np_greater :: "npfloat \<Rightarrow> npfloat \<Rightarrow> bool" where
  "np_greater x y = np_less y x"

text \<open>
  The entries of an array along its first axis, each as its own row-major buffer, and
  indexing by a boolean mask along that axis. A zero-dimensional array cannot be indexed.
\<close>

fun chunks :: "nat \<Rightarrow> nat \<Rightarrow> 'a list \<Rightarrow> 'a list list" where
  "chunks k 0 xs = []"
| "chunks k (Suc n) xs = take k xs # chunks k n (drop k xs)"

definition mask_rows :: "bool list \<Rightarrow> 'a ndarray \<Rightarrow> error + 'a list list" where
  "mask_rows m a =
     (case shape a of
        [] \<Rightarrow> Inl IndexError
      | n # rest \<Rightarrow>
          if length m = n
          then Inr (map snd (filter fst (zip m (chunks (prod_list rest) n (data a)))))
          else Inl IndexError)"

text \<open>
  \<^verbatim>\<open>float(yi_pred < yj_pred)\<close>: the two entries have the same shape; the comparison is
  converted to a float when it holds a single element, and is a TypeError otherwise.
\<close>

definition float_less :: "real list \<Rightarrow> real list \<Rightarrow> error + real" where
  "float_less yi yj =
     (if length yi = 1 \<and> length yj = 1
      then Inr (if hd yi < hd yj then 1 else 0)
      else Inl TypeError)"

text \<open>
  What \<^verbatim>\<open>np.sum(..., axis=0)\<close> returns here: the scalar \<open>0.0\<close> for an empty list, the
  column sums for a list of \<open>[term, 1.]\<close> rows.
\<close>

datatype npsum = SumScalar real | SumPair real real

definition np_sum_pairs :: "(real \<times> real) list \<Rightarrow> npsum" where
  "np_sum_pairs ts =
     (if ts = [] then SumScalar 0
      else SumPair (sum_list (map fst ts)) (sum_list (map snd ts)))"

fun is_pair :: "npsum \<Rightarrow> bool" where
  "is_pair (SumPair n d) = True"
| "is_pair (SumScalar s) = False"

fun np_add :: "npsum \<Rightarrow> npsum \<Rightarrow> npsum" where
  "np_add (SumScalar a) (SumScalar b) = SumScalar (a + b)"
| "np_add (SumScalar a) (SumPair n d) = SumPair (a + n) (a + d)"
| "np_add (SumPair n d) (SumScalar b) = SumPair (n + b) (d + b)"
| "np_add (SumPair n d) (SumPair n' d') = SumPair (n + n') (d + d')"

text \<open>
  The outer \<^verbatim>\<open>np.sum\<close> receives one inner sum per event. When all of them are pairs, or
  all scalars, the list is a regular array. A list mixing both is ragged: numpy from
  version 1.24 on raises ValueError for it; a numpy that still accepts it makes an object
  array and adds the entries with broadcasting. \<open>ragged_ok\<close> says that numpy accepts
  a ragged list.
\<close>

definition np_sum_outer :: "bool \<Rightarrow> npsum list \<Rightarrow> error + npsum" where
  "np_sum_outer ragged_ok xs =
     (if xs = [] then Inr (SumScalar 0)
      else if list_all is_pair xs \<or> list_all (\<lambda>x. \<not> is_pair x) xs \<or> ragged_ok
      then Inr (foldl np_add (hd xs) (tl xs))
      else Inl ValueError)"

fun getitem :: "npsum \<Rightarrow> nat \<Rightarrow> error + real" where
  "getitem (SumScalar s) i = Inl IndexError"
| "getitem (SumPair n d) i = (if i = 0 then Inr n else if i = 1 then Inr d else Inl IndexError)"

text \<open>The inner comprehension of \<open>c_index_ours\<close> for one event, and the function itself.\<close>

definition event_sum ::
  "npfloat list \<Rightarrow> real ndarray \<Rightarrow> npfloat \<times> real list \<times> real list \<Rightarrow> error + npsum" where
  "event_sum v y_pred ev =
     (case ev of (vi, yi_pred, yi_true) \<Rightarrow>
        and_then (mask_rows (map (\<lambda>vj. np_greater vj vi) v) y_pred) (\<lambda>js.
        and_then (comprehension
                    (\<lambda>yj_pred. and_then (float_less yi_pred yj_pred) (\<lambda>b. Inr (b, 1))) js) (\<lambda>terms.
        Inr (np_sum_pairs terms))))"

definition c_index_ours :: "bool \<Rightarrow> real ndarray \<Rightarrow> real ndarray \<Rightarrow> kwargs \<Rightarrow> error + npfloat" where
  "c_index_ours ragged_ok y_pred y_true kw =
     (case censor_flag kw of
        None \<Rightarrow> Inl KeyError
      | Some c \<Rightarrow>
          (let d = map astype_int8 (ravel c)
           in case survival_time kw of
                None \<Rightarrow> Inl KeyError
              | Some s \<Rightarrow>
                  (let v = map astype_float32 (ravel s); ev = map (\<lambda>x. x = 1) d
                   in and_then (mask_index ev v) (\<lambda>vs.
                      and_then (mask_rows ev y_pred) (\<lambda>ps.
                      and_then (mask_rows ev y_true) (\<lambda>ts.
                      and_then (comprehension (event_sum v y_pred) (zip vs (zip ps ts))) (\<lambda>totals.
                      and_then (np_sum_outer ragged_ok totals) (\<lambda>numerator_denominator.
                      and_then (getitem numerator_denominator 0) (\<lambda>n.
                      and_then (getitem numerator_denominator 1) (\<lambda>m.
                      Inr (np_divide (Finite n) (Finite m))))))))))))"

subsection \<open>Reference computations, in the words of the specification\<close>

text \<open>
  The indices where the censoring flag is 1, the subsequence of a vector at given
  indices, and the mean squared and mean absolute error of two vectors.
\<close>

definition event_indices :: "int list \<Rightarrow> nat list" where
  "event_indices d = filter (\<lambda>i. d ! i = 1) [0..<length d]"

definition subsequence :: "'a list \<Rightarrow> nat list \<Rightarrow> 'a list" where
  "subsequence xs inds = map (\<lambda>i. xs ! i) inds"

definition mean_squared_error :: "real list \<Rightarrow> real list \<Rightarrow> npfloat" where
  "mean_squared_error xs ys = np_mean (map2 (\<lambda>p t. (p - t)\<^sup>2) xs ys)"

definition mean_absolute_error :: "real list \<Rightarrow> real list \<Rightarrow> npfloat" where
  "mean_absolute_error xs ys = np_mean (map2 (\<lambda>p t. \<bar>p - t\<bar>) xs ys)"

text \<open>
  The accuracy restricted to the samples whose true value is \<open>c\<close>, on predictions
  already rounded to integers: the fraction of those samples whose prediction equals the
  true value.
\<close>

definition rounded_class_accuracy :: "int list \<Rightarrow> real list \<Rightarrow> real \<Rightarrow> npfloat" where
  "rounded_class_accuracy p t c =
     np_mean (map (\<lambda>i. if real_of_int (p ! i) = t ! i then 1 else 0) (np_where_eq t c))"

text \<open>
  The concordance index as the specification words it. For an event sample \<open>i\<close> the
  comparison set holds every \<open>j\<close> whose time is later than the time of \<open>i\<close>; each such
  \<open>j\<close> adds 1 to the denominator, and 1 to the numerator when the prediction of \<open>i\<close> is
  strictly below the prediction of \<open>j\<close>. The test for "later" is an argument.
\<close>

definition comparison_set :: "('t \<Rightarrow> 't \<Rightarrow> bool) \<Rightarrow> 't list \<Rightarrow> nat \<Rightarrow> nat list" where
  "comparison_set later time i = filter (\<lambda>j. later (time ! j) (time ! i)) [0..<length time]"

definition c_index_reference ::
  "('t \<Rightarrow> 't \<Rightarrow> bool) \<Rightarrow> real list \<Rightarrow> int list \<Rightarrow> 't list \<Rightarrow> npfloat" where
  "c_index_reference later pred cens time =
     (let events = event_indices cens;
          numerator = sum_list (map (\<lambda>i. sum_list (map (\<lambda>j. if pred ! i < pred ! j then 1 else 0)
                                                       (comparison_set later time i))) events);
          denominator = sum_list (map (\<lambda>i. sum_list (map (\<lambda>j. 1) (comparison_set later time i)))
                                   events)
      in np_divide (Finite numerator) (Finite denominator))"

text \<open>The two components an inner sum contributes to the total.\<close>

fun numerator_of :: "npsum \<Rightarrow> real" where
  "numerator_of (SumPair n d) = n"
| "numerator_of (SumScalar s) = 0"

fun denominator_of :: "npsum \<Rightarrow> real" where
  "denominator_of (SumPair n d) = d"
| "denominator_of (SumScalar s) = 0"

text \<open>The inner sums of \<open>c_index_ours\<close> on one-dimensional predictions, one per event.\<close>

definition event_totals :: "real list \<Rightarrow> int list \<Rightarrow> npfloat list \<Rightarrow> npsum list" where
  "event_totals pred cens v =
     map (\<lambda>i. np_sum_pairs (map (\<lambda>j. (if pred ! i < pred ! j then 1 else 0, 1))
                                  (comparison_set np_greater v i)))
         (event_indices cens)"

section \<open>Properties\<close>

subsection \<open>Helper facts\<close>

lemma elementwise_same_length:
  "length xs = length ys \<Longrightarrow> elementwise f xs ys = Inr (map2 f xs ys)"
  by (simp add: elementwise_def)

lemma sum_list_indicator_bounds:
  "0 \<le> sum_list (map (\<lambda>h. if h then 1 else (0::real)) hs) \<and>
   sum_list (map (\<lambda>h. if h then 1 else (0::real)) hs) \<le> real (length hs)"
  by (induction hs) auto

lemma sum_list_all_hits:
  "\<forall>h\<in>set hs. h \<Longrightarrow> sum_list (map (\<lambda>h. if h then 1 else (0::real)) hs) = real (length hs)"
  by (induction hs) auto

lemma accuracy_in_unit_interval:
  assumes len: "length (ravel y_pred) = length (ravel y_true)"
    and ne: "ravel y_true \<noteq> []"
  shows "\<exists>r. accuracy y_pred y_true = Inr (Finite r) \<and> 0 \<le> r \<and> r \<le> 1"
proof -
  define hs where "hs = map2 (\<lambda>p t. np_around p = t) (ravel y_pred) (ravel y_true)"
  have hne: "hs \<noteq> []" using len ne by (auto simp: hs_def)
  have acc: "accuracy y_pred y_true =
      Inr (Finite (sum_list (map (\<lambda>h. if h then 1 else 0) hs) / real (length hs)))"
    using len hne
    by (simp add: accuracy_def elementwise_same_length hs_def[symmetric] np_mean_def)
  have "0 < real (length hs)" using hne by simp
  with sum_list_indicator_bounds[of hs] acc show ?thesis
    by (auto simp: divide_le_eq)
qed

lemma accuracy_self_integral:
  assumes ne: "ravel t \<noteq> []"
    and int: "\<forall>x\<in>set (ravel t). np_around x = x"
  shows "accuracy t t = Inr (Finite 1)"
proof -
  define hs where "hs = map2 (\<lambda>p t. np_around p = t) (ravel t) (ravel t)"
  have hne: "hs \<noteq> []" using ne by (auto simp: hs_def)
  have "\<forall>h\<in>set hs. h"
    using int by (auto simp: hs_def zip_same)
  then have "sum_list (map (\<lambda>h. if h then 1 else (0::real)) hs) = real (length hs)"
    by (rule sum_list_all_hits)
  moreover have "accuracy t t =
      Inr (Finite (sum_list (map (\<lambda>h. if h then 1 else 0) hs) / real (length hs)))"
    using hne
    by (simp add: accuracy_def elementwise_same_length hs_def[symmetric] np_mean_def)
  ultimately show ?thesis using hne by simp
qed

lemma and_then_Inr [simp]: "and_then (Inr x) f = f x"
  by (simp add: and_then_def)

lemma and_then_Inl [simp]: "and_then (Inl e) f = Inl e"
  by (simp add: and_then_def)

lemma astype_int8_in_range:
  "- 128 \<le> f \<Longrightarrow> f \<le> 127 \<Longrightarrow> astype_int8 f = f"
  unfolding astype_int8_def
  by (simp add: sint_sbintrunc' signed_take_bit_int_eq_self)

lemma ravel_vec [simp]: "ravel (vec xs) = xs"
  by (simp add: ravel_def vec_def)

lemma masked_as_subsequence:
  "length m = length xs \<Longrightarrow>
   map snd (filter fst (zip m xs)) = map (\<lambda>i. xs ! i) (filter (\<lambda>i. m ! i) [0..<length xs])"
proof (induction xs arbitrary: m rule: rev_induct)
  case Nil
  then show ?case by simp
next
  case (snoc x xs)
  then obtain m' b where m: "m = m' @ [b]" and len: "length m' = length xs"
    by (cases m rule: rev_cases) auto
  have f: "filter (\<lambda>i. (m' @ [b]) ! i) [0..<length xs] = filter (\<lambda>i. m' ! i) [0..<length xs]"
    using len by (intro filter_cong) (auto simp: nth_append)
  have g: "map (\<lambda>i. (xs @ [x]) ! i) (filter (\<lambda>i. m' ! i) [0..<length xs])
         = map (\<lambda>i. xs ! i) (filter (\<lambda>i. m' ! i) [0..<length xs])"
    by (intro map_cong) (auto simp: nth_append)
  have h: "(m' @ [b]) ! length xs = b"
    using len by (metis nth_append_length)
  show ?case
    using snoc.IH[OF len] len by (simp add: m f g h)
qed

lemma mask_index_events:
  assumes "length d = length xs" "\<forall>f\<in>set d. - 128 \<le> f \<and> f \<le> 127"
  shows "mask_index (map (\<lambda>x. x = 1) (map astype_int8 d)) xs = Inr (subsequence xs (event_indices d))"
proof -
  have c: "map astype_int8 d = d"
    using assms(2) by (intro map_idI) (simp add: astype_int8_in_range)
  have "filter (\<lambda>i. map (\<lambda>x. x = 1) d ! i) [0..<length xs] = filter (\<lambda>i. d ! i = 1) [0..<length xs]"
    using assms(1) by (intro filter_cong) auto
  then show ?thesis
    using assms(1)
    by (simp add: mask_index_def c masked_as_subsequence subsequence_def event_indices_def
        del: map_map)
qed




lemma round_half_even_tie:
  "round_half_even (of_int n + 1/2) = (if even n then n else n + 1)"
proof -
  have "\<lfloor>of_int n + (1/2 :: real)\<rfloor> = n" by linarith
  then show ?thesis by (simp add: round_half_even_def Let_def)
qed

lemma accuracy_single:
  "accuracy (vec [p]) (vec [t]) = Inr (Finite (if np_around p = t then 1 else 0))"
  by (simp add: accuracy_def elementwise_def np_mean_def)

lemma astype_int_of_int:
  "- (2 ^ 63) \<le> k \<Longrightarrow> k < 2 ^ 63 \<Longrightarrow> astype_int (of_int k) = k"
  by (simp add: astype_int_def Let_def)

lemma round_half_even_of_int: "round_half_even (of_int k) = k"
  by (simp add: round_half_even_def Let_def)

lemma np_around_of_int [simp]: "np_around (of_int k) = of_int k"
  by (simp add: np_around_def round_half_even_of_int)

lemma comprehension_total:
  "comprehension (\<lambda>x. Inr (g x)) xs = Inr (map g xs)"
  by (induction xs) simp_all

lemma comprehension_cong_set:
  "(\<And>x. x \<in> set xs \<Longrightarrow> f x = g x) \<Longrightarrow> comprehension f xs = comprehension g xs"
  by (induction xs) simp_all

lemma fancy_index_in_range:
  assumes "\<forall>i\<in>set inds. i < length xs"
  shows "fancy_index xs inds = Inr (map (\<lambda>i. xs ! i) inds)"
proof -
  have "comprehension (\<lambda>i. if i < length xs then Inr (xs ! i) else Inl IndexError) inds
      = comprehension (\<lambda>i. Inr (xs ! i)) inds"
    using assms by (intro comprehension_cong_set) auto
  then show ?thesis by (simp add: fancy_index_def comprehension_total)
qed

lemma np_where_eq_bound: "i \<in> set (np_where_eq t c) \<Longrightarrow> i < length t"
  by (simp add: np_where_eq_def)

lemma np_where_eq_nonempty: "c \<in> set t \<Longrightarrow> np_where_eq t c \<noteq> []"
  by (auto simp: np_where_eq_def filter_empty_conv in_set_conv_nth)

lemma np_mean_indicator_range:
  assumes "xs \<noteq> []"
  shows "\<exists>r. np_mean (map (\<lambda>x. if P x then 1 else 0) xs) = Finite r \<and> 0 \<le> r \<and> r \<le> 1"
proof -
  have b: "0 \<le> sum_list (map (\<lambda>x. if P x then 1 else (0::real)) xs) \<and>
           sum_list (map (\<lambda>x. if P x then 1 else (0::real)) xs) \<le> real (length xs)"
    by (induction xs) auto
  have "0 < real (length xs)" using assms by simp
  with b show ?thesis using assms by (auto simp: np_mean_def divide_le_eq)
qed

lemma per_class_step:
  assumes "length t \<le> length p"
  shows "and_then (fancy_index p (np_where_eq t c)) (\<lambda>ps.
         and_then (fancy_index t (np_where_eq t c)) (\<lambda>ts.
         and_then (accuracy (vec (map of_int ps)) (vec ts)) k))
       = k (rounded_class_accuracy p t c)"
proof -
  have p: "fancy_index p (np_where_eq t c) = Inr (map (\<lambda>i. p ! i) (np_where_eq t c))"
    using assms by (intro fancy_index_in_range) (auto dest: np_where_eq_bound)
  have t: "fancy_index t (np_where_eq t c) = Inr (map (\<lambda>i. t ! i) (np_where_eq t c))"
    by (intro fancy_index_in_range) (auto dest: np_where_eq_bound)
  have a: "accuracy (vec (map of_int (map (\<lambda>i. p ! i) (np_where_eq t c))))
                    (vec (map (\<lambda>i. t ! i) (np_where_eq t c)))
         = Inr (rounded_class_accuracy p t c)"
    by (simp add: accuracy_def elementwise_same_length rounded_class_accuracy_def
        zip_map_map o_def split_def map2_map_map[symmetric] del: map2_map_map)
       (simp add: zip_same_conv_map o_def)
  show ?thesis by (simp only: p t a and_then_Inr)
qed

lemma per_class_loop_result:
  assumes "length t \<le> length p"
  shows "per_class_loop p t out cs = Inr (out @ map (\<lambda>c. (c, rounded_class_accuracy p t c)) cs)"
  using assms
proof (induction cs arbitrary: out)
  case Nil
  then show ?case by simp
next
  case (Cons c cs)
  show ?case
    by (simp add: Let_def per_class_step[OF Cons.prems] Cons.IH[OF Cons.prems])
qed

lemma accuracy_per_class_result:
  assumes "length (ravel y_true) \<le> length (ravel y_pred)"
  shows "accuracy_per_class set_iter y_pred y_true =
     Inr (map (\<lambda>c. (c, rounded_class_accuracy
                          (map (\<lambda>p. astype_int (np_around p)) (ravel y_pred)) (ravel y_true) c))
              (set_iter (ravel y_true)))"
  using assms by (simp add: accuracy_per_class_def Let_def per_class_loop_result)

lemma chunks_map: "chunks k n (map f xs) = map (map f) (chunks k n xs)"
  by (induction n arbitrary: xs) (simp_all add: take_map drop_map)

lemma masked_map:
  "map snd (filter fst (zip m (map g xs))) = map g (map snd (filter fst (zip m xs)))"
proof (induction m arbitrary: xs)
  case Nil
  then show ?case by simp
next
  case (Cons b m)
  then show ?case by (cases xs) simp_all
qed

lemma mask_rows_map:
  "mask_rows m (map_ndarray f a) =
     (case mask_rows m a of Inl e \<Rightarrow> Inl e | Inr rows \<Rightarrow> Inr (map (map f) rows))"
  by (cases a) (simp add: mask_rows_def chunks_map masked_map split: list.splits)

lemma float_less_strict_mono:
  assumes "strict_mono f"
  shows "float_less (map f yi) (map f yj) = float_less yi yj"
proof (cases "length yi = 1 \<and> length yj = 1")
  case True
  then obtain a b where "yi = [a]" "yj = [b]"
    by (auto simp: length_Suc_conv)
  then show ?thesis
    using assms by (simp add: float_less_def strict_mono_less)
next
  case False
  then show ?thesis by (auto simp: float_less_def)
qed

lemma comprehension_map:
  "comprehension g (map h xs) = comprehension (\<lambda>x. g (h x)) xs"
  by (induction xs) simp_all

lemma event_sum_strict_mono:
  assumes "strict_mono f"
  shows "event_sum v (map_ndarray f y_pred) (vi, map f yi, yt) = event_sum v y_pred (vi, yi, yt)"
proof (cases "mask_rows (map (\<lambda>vj. np_greater vj vi) v) y_pred")
  case (Inl e)
  then show ?thesis by (simp add: event_sum_def mask_rows_map)
next
  case (Inr js)
  have "comprehension (\<lambda>yj. and_then (float_less (map f yi) yj) (\<lambda>b. Inr (b, 1::real))) (map (map f) js)
      = comprehension (\<lambda>yj. and_then (float_less yi yj) (\<lambda>b. Inr (b, 1::real))) js"
    by (simp add: comprehension_map float_less_strict_mono[OF assms])
  then show ?thesis by (simp add: event_sum_def mask_rows_map Inr)
qed

lemma zip3_map_middle:
  "zip vs (zip (map g ps) ts) = map (\<lambda>(v, p, t). (v, g p, t)) (zip vs (zip ps ts))"
proof (induction vs arbitrary: ps ts)
  case Nil
  then show ?case by simp
next
  case (Cons v vs)
  then show ?case by (cases ps; cases ts) simp_all
qed

lemma chunks_singletons: "chunks (Suc 0) (length xs) xs = map (\<lambda>x. [x]) xs"
  by (induction xs) simp_all

lemma mask_rows_vec:
  assumes "length m = length xs"
  shows "mask_rows m (vec xs) = Inr (map (\<lambda>i. [xs ! i]) (filter (\<lambda>i. m ! i) [0..<length xs]))"
proof -
  have "map snd (filter fst (zip m (map (\<lambda>x. [x]) xs)))
      = map (\<lambda>x. [x]) (map (\<lambda>i. xs ! i) (filter (\<lambda>i. m ! i) [0..<length xs]))"
    using assms by (simp only: masked_map masked_as_subsequence)
  then show ?thesis
    using assms by (simp add: mask_rows_def vec_def chunks_singletons o_def)
qed

lemma foldl_np_add_pair:
  assumes "\<forall>x\<in>set xs. is_pair x \<or> x = SumScalar 0"
  shows "foldl np_add (SumPair n d) xs =
         SumPair (n + sum_list (map numerator_of xs)) (d + sum_list (map denominator_of xs))"
  using assms
proof (induction xs arbitrary: n d)
  case Nil
  then show ?case by simp
next
  case (Cons x xs)
  then show ?case by (cases x) (auto simp: add.assoc)
qed

lemma foldl_np_add_scalar:
  assumes "\<forall>x\<in>set xs. is_pair x \<or> x = SumScalar 0"
    and "\<exists>x\<in>set xs. is_pair x"
  shows "foldl np_add (SumScalar 0) xs =
         SumPair (sum_list (map numerator_of xs)) (sum_list (map denominator_of xs))"
  using assms
proof (induction xs)
  case Nil
  then show ?case by simp
next
  case (Cons x xs)
  show ?case
  proof (cases x)
    case (SumPair n d)
    then show ?thesis using Cons.prems(1) by (simp add: foldl_np_add_pair)
  next
    case (SumScalar s)
    then have "s = 0" using Cons.prems(1) by simp
    then show ?thesis using Cons SumScalar by simp
  qed
qed

lemma np_sum_outer_pairs:
  assumes ok: "\<forall>x\<in>set xs. is_pair x \<or> x = SumScalar 0"
    and one: "\<exists>x\<in>set xs. is_pair x"
    and rag: "ragged_ok \<or> (\<forall>x\<in>set xs. is_pair x)"
  shows "np_sum_outer ragged_ok xs =
         Inr (SumPair (sum_list (map numerator_of xs)) (sum_list (map denominator_of xs)))"
proof -
  obtain y ys where xs: "xs = y # ys" using one by (cases xs) auto
  have f: "foldl np_add y ys = SumPair (sum_list (map numerator_of xs)) (sum_list (map denominator_of xs))"
  proof (cases y)
    case (SumPair n d)
    then show ?thesis using ok by (simp add: xs foldl_np_add_pair)
  next
    case (SumScalar s)
    then have "s = 0" using ok xs by simp
    moreover have "\<exists>x\<in>set ys. is_pair x" using one xs SumScalar by simp
    ultimately show ?thesis
      using foldl_np_add_scalar[of ys] ok SumScalar by (simp add: xs)
  qed
  have c: "list_all is_pair xs \<or> list_all (\<lambda>x. \<not> is_pair x) xs \<or> ragged_ok"
    using rag by (auto simp: list_all_iff)
  show ?thesis using c f by (simp add: np_sum_outer_def xs)
qed

lemma np_sum_pairs_parts:
  "numerator_of (np_sum_pairs ts) = sum_list (map fst ts)"
  "denominator_of (np_sum_pairs ts) = sum_list (map snd ts)"
  "is_pair (np_sum_pairs ts) \<longleftrightarrow> ts \<noteq> []"
  "is_pair (np_sum_pairs ts) \<or> np_sum_pairs ts = SumScalar 0"
  by (simp_all add: np_sum_pairs_def)

lemma event_sum_vec:
  assumes "length v = length pred"
  shows "event_sum v (vec pred) (vi, [yi], yt) =
     Inr (np_sum_pairs (map (\<lambda>j. (if yi < pred ! j then 1 else 0, 1))
                            (filter (\<lambda>j. np_greater (v ! j) vi) [0..<length v])))"
proof -
  have m: "mask_rows (map (\<lambda>vj. np_greater vj vi) v) (vec pred)
      = Inr (map (\<lambda>j. [pred ! j]) (filter (\<lambda>j. np_greater (v ! j) vi) [0..<length v]))"
  proof -
    have "filter (\<lambda>i. map (\<lambda>vj. np_greater vj vi) v ! i) [0..<length pred]
        = filter (\<lambda>j. np_greater (v ! j) vi) [0..<length v]"
      using assms by (auto intro: filter_cong)
    then show ?thesis using assms by (simp add: mask_rows_vec)
  qed
  show ?thesis
    by (simp add: event_sum_def m comprehension_map float_less_def comprehension_total o_def)
qed

lemma c_index_ours_totals:
  assumes kc: "censor_flag kw = Some c" and ks: "survival_time kw = Some s"
    and lp: "length pred = length (ravel c)"
    and lt: "length tru = length (ravel c)"
    and ls: "length (ravel s) = length (ravel c)"
    and rng: "\<forall>f\<in>set (ravel c). - 128 \<le> f \<and> f \<le> 127"
  shows "c_index_ours ragged_ok (vec pred) (vec tru) kw =
     and_then (np_sum_outer ragged_ok (event_totals pred (ravel c) (map astype_float32 (ravel s))))
       (\<lambda>numerator_denominator.
          and_then (getitem numerator_denominator 0) (\<lambda>n.
          and_then (getitem numerator_denominator 1) (\<lambda>m.
          Inr (np_divide (Finite n) (Finite m)))))"
proof -
  define v where "v = map astype_float32 (ravel s)"
  define ev where "ev = map (\<lambda>x. x = 1) (map astype_int8 (ravel c))"
  define events where "events = event_indices (ravel c)"
  have lv: "length v = length (ravel c)" by (simp add: v_def ls)
  have evf: "filter (\<lambda>i. ev ! i) [0..<length (ravel c)] = events"
  proof -
    have "map astype_int8 (ravel c) = ravel c"
      using rng by (intro map_idI) (simp add: astype_int8_in_range)
    then show ?thesis
      unfolding ev_def events_def event_indices_def by (auto intro: filter_cong)
  qed
  have lev: "length ev = length (ravel c)" by (simp add: ev_def)
  have vs: "mask_index ev v = Inr (map (\<lambda>i. v ! i) events)"
    using lv lev by (simp add: mask_index_def masked_as_subsequence evf)
  have ps: "mask_rows ev (vec pred) = Inr (map (\<lambda>i. [pred ! i]) events)"
    using lp lev by (simp add: mask_rows_vec evf)
  have ts: "mask_rows ev (vec tru) = Inr (map (\<lambda>i. [tru ! i]) events)"
    using lt lev by (simp add: mask_rows_vec evf)
  have z: "zip (map (\<lambda>i. v ! i) events) (zip (map (\<lambda>i. [pred ! i]) events) (map (\<lambda>i. [tru ! i]) events))
         = map (\<lambda>i. (v ! i, [pred ! i], [tru ! i])) events"
    by (induction events) simp_all
  have es: "event_sum v (vec pred) (v ! i, [pred ! i], [tru ! i])
      = Inr (np_sum_pairs (map (\<lambda>j. (if pred ! i < pred ! j then 1 else 0, 1))
                               (comparison_set np_greater v i)))" for i
    using lv lp by (simp add: event_sum_vec comparison_set_def)
  have co: "comprehension (event_sum v (vec pred)) (map (\<lambda>i. (v ! i, [pred ! i], [tru ! i])) events)
          = Inr (event_totals pred (ravel c) v)"
    by (simp add: comprehension_map es comprehension_total event_totals_def events_def)
  show ?thesis
    unfolding c_index_ours_def kc ks Let_def option.case
      v_def[symmetric] ev_def[symmetric]
    by (simp only: vs ps ts z co and_then_Inr)
qed

lemma event_totals_numerator:
  "sum_list (map numerator_of (event_totals pred cens v))
     = sum_list (map (\<lambda>i. sum_list (map (\<lambda>j. if pred ! i < pred ! j then 1 else 0)
                                           (comparison_set np_greater v i))) (event_indices cens))"
  by (simp add: event_totals_def o_def np_sum_pairs_parts)

lemma event_totals_denominator:
  "sum_list (map denominator_of (event_totals pred cens v))
     = sum_list (map (\<lambda>i. sum_list (map (\<lambda>j. 1) (comparison_set np_greater v i)))
                     (event_indices cens))"
  by (simp add: event_totals_def o_def np_sum_pairs_parts)

lemma event_totals_shape:
  "\<forall>x\<in>set (event_totals pred cens v). is_pair x \<or> x = SumScalar 0"
  using np_sum_pairs_parts(4) by (auto simp: event_totals_def)

lemma event_totals_some_pair:
  "(\<exists>x\<in>set (event_totals pred cens v). is_pair x)
     \<longleftrightarrow> (\<exists>i\<in>set (event_indices cens). comparison_set np_greater v i \<noteq> [])"
  by (auto simp: event_totals_def np_sum_pairs_parts)

lemma event_totals_all_pairs:
  "(\<forall>x\<in>set (event_totals pred cens v). is_pair x)
     \<longleftrightarrow> (\<forall>i\<in>set (event_indices cens). comparison_set np_greater v i \<noteq> [])"
  by (auto simp: event_totals_def np_sum_pairs_parts)

lemma foldl_np_add_zero:
  "\<forall>x\<in>set xs. x = SumScalar 0 \<Longrightarrow> foldl np_add (SumScalar 0) xs = SumScalar 0"
  by (induction xs) simp_all

lemma np_sum_outer_scalars:
  assumes "\<forall>x\<in>set xs. x = SumScalar 0"
  shows "np_sum_outer ragged_ok xs = Inr (SumScalar 0)"
proof (cases xs)
  case Nil
  then show ?thesis by (simp add: np_sum_outer_def)
next
  case (Cons y ys)
  have "list_all (\<lambda>x. \<not> is_pair x) xs"
    using assms by (auto simp: list_all_iff)
  moreover have "foldl np_add y ys = SumScalar 0"
    using assms Cons by (simp add: foldl_np_add_zero)
  ultimately show ?thesis by (simp add: np_sum_outer_def Cons)
qed

lemma np_sum_outer_ragged:
  assumes "\<not> ragged_ok" "\<exists>x\<in>set xs. is_pair x" "\<exists>x\<in>set xs. \<not> is_pair x"
  shows "np_sum_outer ragged_ok xs = Inl ValueError"
  using assms by (auto simp: np_sum_outer_def list_all_iff)

text \<open>
  The result of \<open>c_index_ours\<close> on one-dimensional predictions and ground truth, in
  full. Without any comparable pair the outer sum is the scalar \<open>0.0\<close> and indexing it
  raises IndexError; no division takes place. An event without partners next to an event
  with partners makes the list of inner sums ragged.
\<close>

lemma c_index_ours_on_vectors:
  assumes kc: "censor_flag kw = Some c" and ks: "survival_time kw = Some s"
    and lp: "length pred = length (ravel c)"
    and lt: "length tru = length (ravel c)"
    and ls: "length (ravel s) = length (ravel c)"
    and rng: "\<forall>f\<in>set (ravel c). - 128 \<le> f \<and> f \<le> 127"
  shows "c_index_ours ragged_ok (vec pred) (vec tru) kw =
     (let v = map astype_float32 (ravel s); events = event_indices (ravel c)
      in if \<forall>i\<in>set events. comparison_set np_greater v i = [] then Inl IndexError
         else if \<not> ragged_ok \<and> (\<exists>i\<in>set events. comparison_set np_greater v i = [])
         then Inl ValueError
         else Inr (c_index_reference np_greater pred (ravel c) v))"
proof -
  define v where "v = map astype_float32 (ravel s)"
  define totals where "totals = event_totals pred (ravel c) v"
  have t: "c_index_ours ragged_ok (vec pred) (vec tru) kw =
     and_then (np_sum_outer ragged_ok totals)
       (\<lambda>numerator_denominator.
          and_then (getitem numerator_denominator 0) (\<lambda>n.
          and_then (getitem numerator_denominator 1) (\<lambda>m.
          Inr (np_divide (Finite n) (Finite m)))))"
    unfolding totals_def v_def by (rule c_index_ours_totals[OF assms])
  have shape: "\<forall>x\<in>set totals. is_pair x \<or> x = SumScalar 0"
    unfolding totals_def by (rule event_totals_shape)
  have some: "(\<exists>x\<in>set totals. is_pair x)
      \<longleftrightarrow> (\<exists>i\<in>set (event_indices (ravel c)). comparison_set np_greater v i \<noteq> [])"
    unfolding totals_def by (rule event_totals_some_pair)
  have all: "(\<forall>x\<in>set totals. is_pair x)
      \<longleftrightarrow> (\<forall>i\<in>set (event_indices (ravel c)). comparison_set np_greater v i \<noteq> [])"
    unfolding totals_def by (rule event_totals_all_pairs)
  consider (none) "\<forall>i\<in>set (event_indices (ravel c)). comparison_set np_greater v i = []"
    | (ragged) "\<not> (\<forall>i\<in>set (event_indices (ravel c)). comparison_set np_greater v i = [])"
        "\<not> ragged_ok" "\<exists>i\<in>set (event_indices (ravel c)). comparison_set np_greater v i = []"
    | (pairs) "\<exists>i\<in>set (event_indices (ravel c)). comparison_set np_greater v i \<noteq> []"
        "ragged_ok \<or> (\<forall>i\<in>set (event_indices (ravel c)). comparison_set np_greater v i \<noteq> [])"
    by blast
  then show ?thesis
  proof cases
    case none
    then have "\<forall>x\<in>set totals. x = SumScalar 0"
      using shape some by blast
    then have "np_sum_outer ragged_ok totals = Inr (SumScalar 0)"
      by (rule np_sum_outer_scalars)
    then have "c_index_ours ragged_ok (vec pred) (vec tru) kw = Inl IndexError"
      by (simp add: t)
    then show ?thesis using none by (simp add: Let_def v_def[symmetric])
  next
    case ragged
    have "np_sum_outer ragged_ok totals = Inl ValueError"
      using ragged some all by (intro np_sum_outer_ragged) auto
    then have "c_index_ours ragged_ok (vec pred) (vec tru) kw = Inl ValueError"
      by (simp add: t)
    then show ?thesis using ragged by (auto simp: Let_def v_def[symmetric])
  next
    case pairs
    have "np_sum_outer ragged_ok totals =
      Inr (SumPair (sum_list (map numerator_of totals)) (sum_list (map denominator_of totals)))"
      using pairs shape some all by (intro np_sum_outer_pairs) auto
    then have "c_index_ours ragged_ok (vec pred) (vec tru) kw =
        Inr (np_divide (Finite (sum_list (map numerator_of totals)))
                       (Finite (sum_list (map denominator_of totals))))"
      by (simp add: t)
    also have "\<dots> = Inr (c_index_reference np_greater pred (ravel c) v)"
      unfolding totals_def
      by (simp only: event_totals_numerator event_totals_denominator c_index_reference_def Let_def)
    finally show ?thesis using pairs by (auto simp: Let_def v_def[symmetric])
  qed
qed

subsection \<open>C7: rmse against nmse\<close>

text \<open>
  C7. For equal-length non-empty vectors whose ground truth has a variance other than
  zero, \<open>nmse\<close> returns a value \<open>n\<close> and \<open>rmse\<close> returns exactly
  \<open>sqrt (n * variance(true))\<close>, the variance being \<^verbatim>\<open>np.var\<close> of the ground truth.
\<close>

theorem rmse_nmse_identity:
  assumes len: "length (ravel y_pred) = length (ravel y_true)"
    and ne: "ravel y_true \<noteq> []"
    and var: "np_var (ravel y_true) \<noteq> Finite 0"
  shows "\<exists>n. nmse y_pred y_true = Inr n \<and>
             rmse y_pred y_true = Inr (np_sqrt (np_multiply n (np_var (ravel y_true))))"
proof -
  define sq where "sq = map2 (\<lambda>p t. (p - t)\<^sup>2) (ravel y_pred) (ravel y_true)"
  obtain w where w: "np_var (ravel y_true) = Finite w" and w0: "w \<noteq> 0"
    using ne var by (auto simp: np_var_def Let_def)
  have sqne: "sq \<noteq> []" using len ne by (auto simp: sq_def)
  then obtain m where m: "np_mean sq = Finite m" by (simp add: np_mean_def)
  have n: "nmse y_pred y_true = Inr (Finite (m / w))"
    using len w0 by (simp add: nmse_def elementwise_same_length sq_def[symmetric] m w)
  have r: "rmse y_pred y_true = Inr (np_sqrt (Finite m))"
    using len by (simp add: rmse_def elementwise_same_length sq_def[symmetric] m)
  have "np_multiply (Finite (m / w)) (np_var (ravel y_true)) = Finite m"
    using w0 by (simp add: w)
  with n r show ?thesis by simp
qed

theorem rmse_nmse_identity_witness:
  "length (ravel (vec [1, 2 :: real])) = length (ravel (vec [0, 2 :: real])) \<and>
   ravel (vec [0, 2 :: real]) \<noteq> [] \<and>
   np_var (ravel (vec [0, 2])) \<noteq> Finite 0 \<and>
   (\<exists>n. nmse (vec [1, 2]) (vec [0, 2]) = Inr n \<and>
        rmse (vec [1, 2]) (vec [0, 2]) = Inr (np_sqrt (np_multiply n (np_var (ravel (vec [0, 2]))))))"
proof -
  have l: "length (ravel (vec [1, 2 :: real])) = length (ravel (vec [0, 2 :: real]))"
    by (simp add: vec_def ravel_def)
  have n: "ravel (vec [0, 2 :: real]) \<noteq> []"
    by (simp add: vec_def ravel_def)
  have v: "np_var (ravel (vec [0, 2])) \<noteq> Finite 0"
    by (simp add: vec_def ravel_def np_var_def)
  from rmse_nmse_identity [OF l n v] l n v show ?thesis by blast
qed

subsection \<open>C6: range of accuracy and accuracy of a vector against itself\<close>

text \<open>
  C6, as stated, fails: \<open>accuracy\<close> rounds its first argument, so a vector holding a
  value that is not an integer does not score 1 against itself. At \<open>t = [0.5]\<close> the
  prediction rounds to 0 and the accuracy is 0.
\<close>

theorem accuracy_self_counterexample:
  "accuracy (vec [1/2]) (vec [1/2]) = Inr (Finite 0) \<and>
   accuracy (vec [1/2]) (vec [1/2]) \<noteq> Inr (Finite 1)"
  by (simp add: accuracy_def vec_def ravel_def elementwise_def np_around_def
      round_half_even_def np_mean_def)

text \<open>
  C6, amended. For equal-length non-empty vectors \<open>accuracy\<close> returns a real number in
  \<open>[0, 1]\<close>, and for every non-empty vector \<open>t\<close> whose entries are integers (fixed by
  the rounding) \<open>accuracy(t, t)\<close> is 1.
\<close>

theorem accuracy_range_and_self:
  "(length (ravel y_pred) = length (ravel y_true) \<and> ravel y_true \<noteq> [] \<longrightarrow>
      (\<exists>r. accuracy y_pred y_true = Inr (Finite r) \<and> 0 \<le> r \<and> r \<le> 1)) \<and>
   (ravel t \<noteq> [] \<and> (\<forall>x\<in>set (ravel t). np_around x = x) \<longrightarrow>
      accuracy t t = Inr (Finite 1))"
  using accuracy_in_unit_interval accuracy_self_integral by blast

theorem accuracy_range_and_self_witness:
  "length (ravel (vec [3/2, 1, 5/2 :: real])) = length (ravel (vec [2, 1, 3 :: real])) \<and>
   ravel (vec [2, 1, 3 :: real]) \<noteq> [] \<and>
   (\<exists>r. accuracy (vec [3/2, 1, 5/2]) (vec [2, 1, 3]) = Inr (Finite r) \<and> 0 \<le> r \<and> r \<le> 1) \<and>
   list_all (\<lambda>x. np_around x = x) (ravel (vec [2, 1, 3 :: real])) \<and>
   accuracy (vec [2, 1, 3]) (vec [2, 1, 3]) = Inr (Finite 1)"
proof -
  have l: "length (ravel (vec [3/2, 1, 5/2 :: real])) = length (ravel (vec [2, 1, 3 :: real]))"
    by (simp add: vec_def ravel_def)
  have n: "ravel (vec [2, 1, 3 :: real]) \<noteq> []"
    by (simp add: vec_def ravel_def)
  have i: "\<forall>x\<in>set (ravel (vec [2, 1, 3 :: real])). np_around x = x"
    by (simp add: vec_def ravel_def np_around_def round_half_even_def)
  from accuracy_range_and_self [of "vec [3/2, 1, 5/2]" "vec [2, 1, 3]" "vec [2, 1, 3]"] l n i
  show ?thesis by (simp add: list_all_iff)
qed

subsection \<open>C2: the survival metrics against the metrics of the event subset\<close>

text \<open>
  C2. With a censoring-flag vector as long as the predictions and the ground truth, whose
  flags lie in the range of \<^verbatim>\<open>int8\<close> (the flags 0 and 1 of the data model do),
  \<open>rmse_survival\<close> equals \<open>rmse\<close> applied to the subsequences of predictions and
  ground truth at the indices where the flag is 1, \<open>mse_survival\<close> equals the mean
  squared error of those subsequences and \<open>mae_survival\<close> their mean absolute error.
\<close>

theorem survival_metrics_on_event_subset:
  assumes kw: "censor_flag kw = Some c"
    and lp: "length (ravel y_pred) = length (ravel c)"
    and lt: "length (ravel y_true) = length (ravel c)"
    and rng: "\<forall>f\<in>set (ravel c). - 128 \<le> f \<and> f \<le> 127"
  shows "let ev = event_indices (ravel c);
             ps = subsequence (ravel y_pred) ev;
             ts = subsequence (ravel y_true) ev
         in rmse_survival y_pred y_true kw = rmse (vec ps) (vec ts) \<and>
            mse_survival y_pred y_true kw = Inr (mean_squared_error ps ts) \<and>
            mae_survival y_pred y_true kw = Inr (mean_absolute_error ps ts)"
proof -
  have p: "mask_index (map (\<lambda>x. x = 1) (map astype_int8 (ravel c))) (ravel y_pred)
      = Inr (subsequence (ravel y_pred) (event_indices (ravel c)))"
    using lp rng by (intro mask_index_events) auto
  have t: "mask_index (map (\<lambda>x. x = 1) (map astype_int8 (ravel c))) (ravel y_true)
      = Inr (subsequence (ravel y_true) (event_indices (ravel c)))"
    using lt rng by (intro mask_index_events) auto
  have l: "length (subsequence (ravel y_pred) (event_indices (ravel c)))
      = length (subsequence (ravel y_true) (event_indices (ravel c)))"
    by (simp add: subsequence_def)
  show ?thesis
    using l
    by (simp add: Let_def rmse_survival_def mse_survival_def mae_survival_def kw p t
        elementwise_same_length rmse_def mean_squared_error_def
        mean_absolute_error_def del: map_map)
qed

theorem survival_metrics_on_event_subset_witness:
  "censor_flag \<lparr>censor_flag = Some (vec [1, 1, 0]), survival_time = None\<rparr> = Some (vec [1, 1, 0]) \<and>
   length (ravel (vec [2/10, 8/10, 6/10 :: real])) = length (ravel (vec [1, 1, 0 :: int])) \<and>
   length (ravel (vec [0, 1, 1 :: real])) = length (ravel (vec [1, 1, 0 :: int])) \<and>
   list_all (\<lambda>f. - 128 \<le> f \<and> f \<le> 127) (ravel (vec [1, 1, 0 :: int])) \<and>
   event_indices (ravel (vec [1, 1, 0])) = [0, 1] \<and>
   rmse_survival (vec [2/10, 8/10, 6/10]) (vec [0, 1, 1])
       \<lparr>censor_flag = Some (vec [1, 1, 0]), survival_time = None\<rparr>
     = rmse (vec [2/10, 8/10]) (vec [0, 1]) \<and>
   mse_survival (vec [2/10, 8/10, 6/10]) (vec [0, 1, 1])
       \<lparr>censor_flag = Some (vec [1, 1, 0]), survival_time = None\<rparr>
     = Inr (mean_squared_error [2/10, 8/10] [0, 1]) \<and>
   mae_survival (vec [2/10, 8/10, 6/10]) (vec [0, 1, 1])
       \<lparr>censor_flag = Some (vec [1, 1, 0]), survival_time = None\<rparr>
     = Inr (mean_absolute_error [2/10, 8/10] [0, 1]) \<and>
   mean_absolute_error [2/10, 8/10] [0, 1] = Finite (1/5)"
proof -
  have e: "event_indices (ravel (vec [1, 1, 0])) = [0, 1]"
    by code_simp
  have r: "list_all (\<lambda>f. - 128 \<le> f \<and> f \<le> 127) (ravel (vec [1, 1, 0 :: int]))"
    by simp
  have m: "mean_absolute_error [2/10, 8/10] [0, 1] = Finite (1/5)"
    by (simp add: mean_absolute_error_def np_mean_def)
  from survival_metrics_on_event_subset
      [of "\<lparr>censor_flag = Some (vec [1, 1, 0]), survival_time = None\<rparr>" "vec [1, 1, 0]"
          "vec [2/10, 8/10, 6/10]" "vec [0, 1, 1]"] e r m
  show ?thesis by (simp add: Let_def subsequence_def list_all_iff)
qed

subsection \<open>C5: degenerate inputs\<close>



subsection \<open>C10: rounding of predictions\<close>

text \<open>
  C10. \<open>accuracy\<close> and the rounding step of \<open>accuracy_per_class\<close> round a prediction
  halfway between two integers to the even one: 0.5 becomes 0 and 1.5 becomes 2, and a
  prediction \<open>n + 1/2\<close> counts as correct against the even one of \<open>n\<close> and \<open>n + 1\<close>
  and as incorrect against any other true value.
\<close>

theorem rounding_half_to_even:
  "np_around (1/2) = 0 \<and> np_around (3/2) = 2 \<and>
   np_around (of_int n + 1/2) = of_int (if even n then n else n + 1) \<and>
   accuracy (vec [of_int n + 1/2]) (vec [of_int m]) =
     Inr (Finite (if m = (if even n then n else n + 1) then 1 else 0)) \<and>
   (set_iter [of_int m] = [of_int m] \<and> - (2 ^ 63) \<le> n \<and> n + 1 < 2 ^ 63 \<longrightarrow>
     accuracy_per_class set_iter (vec [of_int n + 1/2]) (vec [of_int m]) =
       Inr [(of_int m, Finite (if m = (if even n then n else n + 1) then 1 else 0))])"
proof -
  have a: "np_around (of_int n + 1/2) = of_int (if even n then n else n + 1)"
    by (simp add: np_around_def round_half_even_tie)
  have b: "np_around (1/2) = 0" "np_around (3/2) = 2"
    by (simp_all add: np_around_def round_half_even_def)
  have c: "accuracy (vec [of_int n + 1/2]) (vec [of_int m]) =
     Inr (Finite (if m = (if even n then n else n + 1) then 1 else 0))"
    by (simp add: accuracy_single a)
  have d: "accuracy_per_class set_iter (vec [of_int n + 1/2]) (vec [of_int m]) =
       Inr [(of_int m, Finite (if m = (if even n then n else n + 1) then 1 else 0))]"
    if s: "set_iter [of_int m] = [of_int m]" and lo: "- (2 ^ 63) \<le> n" and hi: "n + 1 < 2 ^ 63"
  proof -
    have k: "astype_int (np_around (of_int n + 1/2)) = (if even n then n else n + 1)"
      using lo hi by (simp add: a astype_int_of_int)
    show ?thesis
      using k by (simp add: accuracy_per_class_def Let_def s np_where_eq_def fancy_index_def
          accuracy_single)
  qed
  from a b c d show ?thesis by blast
qed

theorem rounding_half_to_even_witness:
  "(\<lambda>t. t) [of_int 2] = [of_int 2 :: real] \<and> - (2 ^ 63) \<le> (1 :: int) \<and> (1 :: int) + 1 < 2 ^ 63 \<and>
   accuracy (vec [3/2]) (vec [2]) = Inr (Finite 1) \<and>
   accuracy (vec [3/2]) (vec [1]) = Inr (Finite 0) \<and>
   accuracy_per_class (\<lambda>t. t) (vec [3/2]) (vec [2]) = Inr [(2, Finite 1)] \<and>
   accuracy_per_class (\<lambda>t. t) (vec [3/2]) (vec [1]) = Inr [(1, Finite 0)]"
  using rounding_half_to_even [of 1 2 "\<lambda>t. t"] rounding_half_to_even [of 1 1 "\<lambda>t. t"]
  by simp

subsection \<open>C9: every per-class accuracy is well defined\<close>

text \<open>
  C9. For predictions and ground truth of equal length, when the iterated class values
  are values of the ground truth (as the elements of \<^verbatim>\<open>set(y_true)\<close> are),
  \<open>accuracy_per_class\<close> returns a list in which every class has a non-empty selection
  of samples and an accuracy that is a real number in \<open>[0, 1]\<close>.
\<close>

theorem per_class_accuracy_well_defined:
  assumes len: "length (ravel y_pred) = length (ravel y_true)"
    and iter: "set (set_iter (ravel y_true)) \<subseteq> set (ravel y_true)"
  shows "\<exists>out. accuracy_per_class set_iter y_pred y_true = Inr out \<and>
           map fst out = set_iter (ravel y_true) \<and>
           (\<forall>(c, a)\<in>set out. np_where_eq (ravel y_true) c \<noteq> [] \<and>
                               (\<exists>r. a = Finite r \<and> 0 \<le> r \<and> r \<le> 1))"
proof -
  let ?p = "map (\<lambda>p. astype_int (np_around p)) (ravel y_pred)"
  let ?out = "map (\<lambda>c. (c, rounded_class_accuracy ?p (ravel y_true) c)) (set_iter (ravel y_true))"
  have r: "accuracy_per_class set_iter y_pred y_true = Inr ?out"
    using len by (simp add: accuracy_per_class_result)
  have f: "map fst ?out = set_iter (ravel y_true)"
    by (simp add: o_def)
  have "np_where_eq (ravel y_true) c \<noteq> [] \<and>
        (\<exists>r. rounded_class_accuracy ?p (ravel y_true) c = Finite r \<and> 0 \<le> r \<and> r \<le> 1)"
    if "c \<in> set (set_iter (ravel y_true))" for c
  proof -
    have ne: "np_where_eq (ravel y_true) c \<noteq> []"
      using that iter by (intro np_where_eq_nonempty) auto
    show ?thesis
      unfolding rounded_class_accuracy_def by (intro conjI ne np_mean_indicator_range)
  qed
  then have "\<forall>(c, a)\<in>set ?out. np_where_eq (ravel y_true) c \<noteq> [] \<and>
                               (\<exists>r. a = Finite r \<and> 0 \<le> r \<and> r \<le> 1)"
    by auto
  with r f show ?thesis by blast
qed

theorem per_class_accuracy_well_defined_witness:
  "length (ravel (vec [8, 1, 1/2 :: real])) = length (ravel (vec [8, 1, 1 :: real])) \<and>
   set (remdups (ravel (vec [8, 1, 1 :: real]))) \<subseteq> set (ravel (vec [8, 1, 1 :: real])) \<and>
   accuracy_per_class remdups (vec [8, 1, 1/2]) (vec [8, 1, 1]) = Inr [(8, Finite 1), (1, Finite (1/2))] \<and>
   (\<exists>out. accuracy_per_class remdups (vec [8, 1, 1/2]) (vec [8, 1, 1]) = Inr out \<and>
          map fst out = remdups (ravel (vec [8, 1, 1])) \<and>
          (\<forall>(c, a)\<in>set out. np_where_eq (ravel (vec [8, 1, 1])) c \<noteq> [] \<and>
                              (\<exists>r. a = Finite r \<and> 0 \<le> r \<and> r \<le> 1)))"
proof -
  have l: "length (ravel (vec [8, 1, 1/2 :: real])) = length (ravel (vec [8, 1, 1 :: real]))"
    by simp
  have i: "set (remdups (ravel (vec [8, 1, 1 :: real]))) \<subseteq> set (ravel (vec [8, 1, 1 :: real]))"
    by simp
  have e: "accuracy_per_class remdups (vec [8, 1, 1/2]) (vec [8, 1, 1])
         = Inr [(8, Finite 1), (1, Finite (1/2))]"
    by code_simp
  from per_class_accuracy_well_defined [of "vec [8, 1, 1/2]" "vec [8, 1, 1]" remdups, OF l i] l i e
  show ?thesis by blast
qed

subsection \<open>C3: one pair per class, in the order of the set\<close>

text \<open>
  C3. \<open>accuracy_per_class\<close> returns one pair per element that \<^verbatim>\<open>set(y_true)\<close>
  yields, in the order in which the set yields them. The order is that of CPython's hash
  table, not the sorted one the comment in the source expects: a set built from 8.0
  and 1.0 keeps 8.0 in slot 0 and 1.0 in slot 1 of its eight slots and yields 8.0 first.
  With that order the classes come out as 8, 1.
\<close>

theorem accuracy_per_class_order:
  "(length (ravel y_true) \<le> length (ravel y_pred) \<longrightarrow>
      (\<exists>out. accuracy_per_class set_iter y_pred y_true = Inr out \<and>
             map fst out = set_iter (ravel y_true))) \<and>
   accuracy_per_class (\<lambda>t. [8, 1]) (vec [8, 1]) (vec [8, 1]) = Inr [(8, Finite 1), (1, Finite 1)] \<and>
   \<not> sorted (map fst [(8 :: real, Finite 1), (1, Finite 1)])"
proof -
  have "accuracy_per_class (\<lambda>t. [8, 1]) (vec [8, 1]) (vec [8, 1])
      = Inr [(8, Finite 1), (1, Finite 1)]"
    by code_simp
  then show ?thesis
    by (simp add: accuracy_per_class_result o_def)
qed

theorem accuracy_per_class_order_witness:
  "length (ravel (vec [8, 1 :: real])) \<le> length (ravel (vec [8, 1 :: real])) \<and>
   (\<exists>out. accuracy_per_class (\<lambda>t. [8, 1]) (vec [8, 1]) (vec [8, 1]) = Inr out \<and>
          map fst out = (\<lambda>t. [8, 1]) (ravel (vec [8, 1 :: real]))) \<and>
   accuracy_per_class (\<lambda>t. [8, 1]) (vec [8, 1]) (vec [8, 1]) = Inr [(8, Finite 1), (1, Finite 1)]"
  using accuracy_per_class_order [of "vec [8, 1]" "vec [8, 1]" "\<lambda>t. [8, 1]"]
  by simp

subsection \<open>C8: order-preserving transforms of the predictions\<close>

text \<open>
  C8. For every strictly increasing function \<open>f\<close> on the reals, applying \<open>f\<close> to
  every prediction leaves the result of \<open>c_index_ours\<close> unchanged, whatever the other
  inputs are: the same value, or the same exception.
\<close>

theorem c_index_ours_order_invariant:
  assumes "strict_mono f"
  shows "c_index_ours ragged_ok (map_ndarray f y_pred) y_true kw =
         c_index_ours ragged_ok y_pred y_true kw"
proof -
  have ev: "comprehension (event_sum v (map_ndarray f y_pred)) (zip vs (zip (map (map f) ps) ts))
          = comprehension (event_sum v y_pred) (zip vs (zip ps ts))" for v vs ps ts
    by (simp add: zip3_map_middle comprehension_map split_def event_sum_strict_mono[OF assms])
  show ?thesis
  proof (cases "censor_flag kw")
    case None
    then show ?thesis by (simp add: c_index_ours_def)
  next
    case c: (Some c)
    show ?thesis
    proof (cases "survival_time kw")
      case None
      then show ?thesis by (simp add: c_index_ours_def c)
    next
      case s: (Some s)
      show ?thesis
      proof (cases "mask_rows (map (\<lambda>x. x = 1) (map astype_int8 (ravel c))) y_pred")
        case (Inl e)
        then show ?thesis
          by (simp add: c_index_ours_def c s Let_def mask_rows_map del: map_map)
      next
        case (Inr ps)
        then show ?thesis
          by (simp add: c_index_ours_def c s Let_def mask_rows_map ev del: map_map)
      qed
    qed
  qed
qed

theorem c_index_ours_order_invariant_witness:
  "strict_mono (\<lambda>x :: real. 2 * x + 1) \<and>
   c_index_ours False (map_ndarray (\<lambda>x. 2 * x + 1) (vec [1, 0, 2, 5])) (vec [0, 0, 0, 0])
       \<lparr>censor_flag = Some (vec [1, 1, 0, 0]), survival_time = Some (vec [1, 2, 3, 4])\<rparr>
     = c_index_ours False (vec [1, 0, 2, 5]) (vec [0, 0, 0, 0])
       \<lparr>censor_flag = Some (vec [1, 1, 0, 0]), survival_time = Some (vec [1, 2, 3, 4])\<rparr> \<and>
   c_index_ours False (vec [1, 0, 2, 5]) (vec [0, 0, 0, 0])
       \<lparr>censor_flag = Some (vec [1, 1, 0, 0]), survival_time = Some (vec [1, 2, 3, 4])\<rparr>
     = Inr (Finite (4/5))"
proof -
  have m: "strict_mono (\<lambda>x :: real. 2 * x + 1)"
    by (simp add: strict_mono_def)
  have e: "c_index_ours False (vec [1, 0, 2, 5]) (vec [0, 0, 0, 0])
       \<lparr>censor_flag = Some (vec [1, 1, 0, 0]), survival_time = Some (vec [1, 2, 3, 4])\<rparr>
     = Inr (Finite (4/5))"
    by code_simp
  from c_index_ours_order_invariant [OF m, of False "vec [1, 0, 2, 5]" "vec [0, 0, 0, 0]"
      "\<lparr>censor_flag = Some (vec [1, 1, 0, 0]), survival_time = Some (vec [1, 2, 3, 4])\<rparr>"] m e
  show ?thesis by simp
qed

subsection \<open>C4: flattening of predictions and ground truth\<close>

text \<open>
  C4. The metrics that call \<^verbatim>\<open>ravel\<close> on predictions and ground truth give the same
  result on an array and on its flattened form. \<open>c_index_ours\<close> does not flatten them: it
  indexes the prediction array along its first axis with a mask as long as the flattened
  censoring flags. On a 2-by-2 prediction array with four flags the mask does not fit and
  the call ends in an IndexError, while on the flattened array it returns 4/5.
\<close>

theorem flattening_of_inputs:
  "r_squared r2_score y_pred y_true = r_squared r2_score (vec (ravel y_pred)) (vec (ravel y_true)) \<and>
   rmse y_pred y_true = rmse (vec (ravel y_pred)) (vec (ravel y_true)) \<and>
   nmse y_pred y_true = nmse (vec (ravel y_pred)) (vec (ravel y_true)) \<and>
   accuracy y_pred y_true = accuracy (vec (ravel y_pred)) (vec (ravel y_true)) \<and>
   accuracy_per_class set_iter y_pred y_true =
     accuracy_per_class set_iter (vec (ravel y_pred)) (vec (ravel y_true)) \<and>
   rmse_survival y_pred y_true kw = rmse_survival (vec (ravel y_pred)) (vec (ravel y_true)) kw \<and>
   mse_survival y_pred y_true kw = mse_survival (vec (ravel y_pred)) (vec (ravel y_true)) kw \<and>
   mae_survival y_pred y_true kw = mae_survival (vec (ravel y_pred)) (vec (ravel y_true)) kw \<and>
   c_index_ours ragged_ok (NDArray [2, 2] [1, 0, 2, 5]) (NDArray [2, 2] [0, 0, 0, 0])
       \<lparr>censor_flag = Some (vec [1, 1, 0, 0]), survival_time = Some (vec [1, 2, 3, 4])\<rparr>
     = Inl IndexError \<and>
   c_index_ours ragged_ok (vec (ravel (NDArray [2, 2] [1, 0, 2, 5])))
       (vec (ravel (NDArray [2, 2] [0, 0, 0, 0])))
       \<lparr>censor_flag = Some (vec [1, 1, 0, 0]), survival_time = Some (vec [1, 2, 3, 4])\<rparr>
     = Inr (Finite (4/5))"
proof -
  have a: "c_index_ours r (NDArray [2, 2] [1, 0, 2, 5]) (NDArray [2, 2] [0, 0, 0, 0])
       \<lparr>censor_flag = Some (vec [1, 1, 0, 0]), survival_time = Some (vec [1, 2, 3, 4])\<rparr>
     = Inl IndexError" for r
    by (cases r; code_simp)
  have b: "c_index_ours r (vec (ravel (NDArray [2, 2] [1, 0, 2, 5])))
       (vec (ravel (NDArray [2, 2] [0, 0, 0, 0])))
       \<lparr>censor_flag = Some (vec [1, 1, 0, 0]), survival_time = Some (vec [1, 2, 3, 4])\<rparr>
     = Inr (Finite (4/5))" for r
    by (cases r; code_simp)
  show ?thesis
    by (simp add: a b r_squared_def rmse_def nmse_def accuracy_def accuracy_per_class_def
        rmse_survival_def mse_survival_def mae_survival_def)
qed

subsection \<open>C1: the concordance index against its description\<close>

text \<open>
  C1, as stated, fails: the source compares the survival times after casting them to
  \<^verbatim>\<open>float32\<close>. The times \<open>2\<^sup>2\<^sup>4\<close> and \<open>2\<^sup>2\<^sup>4 + 1\<close> differ, but both become \<open>2\<^sup>2\<^sup>4\<close>
  in \<^verbatim>\<open>float32\<close>. With one event at time \<open>2\<^sup>2\<^sup>4\<close> and two later samples, the source
  compares the event with the last sample only and returns 1, where the description,
  taken on the times as given, compares it with both and yields 1/2.
\<close>

theorem c_index_ours_float32_counterexample:
  "c_index_ours False (vec [1, 0, 2]) (vec [0, 0, 0])
       \<lparr>censor_flag = Some (vec [1, 0, 0]),
        survival_time = Some (vec [16777216, 16777217, 16777218])\<rparr> = Inr (Finite 1) \<and>
   c_index_ours True (vec [1, 0, 2]) (vec [0, 0, 0])
       \<lparr>censor_flag = Some (vec [1, 0, 0]),
        survival_time = Some (vec [16777216, 16777217, 16777218])\<rparr> = Inr (Finite 1) \<and>
   c_index_reference (\<lambda>a b. b < a) [1, 0, 2] [1, 0, 0] [16777216, 16777217, 16777218 :: real]
     = Finite (1/2)"
  by code_simp

text \<open>
  C1, amended. On one-dimensional predictions and ground truth as long as the flattened
  censoring flags and survival times, with flags in the range of \<^verbatim>\<open>int8\<close>, with at
  least one comparable pair, and with either a non-empty comparison set for every event
  or a numpy that sums a ragged list, \<open>c_index_ours\<close> returns the total numerator
  divided by the total denominator of the description, the comparison set of an event
  \<open>i\<close> being the samples \<open>j\<close> whose time cast to \<^verbatim>\<open>float32\<close> is greater than the time
  of \<open>i\<close> cast to \<^verbatim>\<open>float32\<close>.
\<close>

theorem c_index_ours_reference:
  assumes kc: "censor_flag kw = Some c" and ks: "survival_time kw = Some s"
    and lp: "length pred = length (ravel c)"
    and lt: "length tru = length (ravel c)"
    and ls: "length (ravel s) = length (ravel c)"
    and rng: "\<forall>f\<in>set (ravel c). - 128 \<le> f \<and> f \<le> 127"
    and one: "\<exists>i\<in>set (event_indices (ravel c)).
                comparison_set np_greater (map astype_float32 (ravel s)) i \<noteq> []"
    and rag: "ragged_ok \<or> (\<forall>i\<in>set (event_indices (ravel c)).
                comparison_set np_greater (map astype_float32 (ravel s)) i \<noteq> [])"
  shows "c_index_ours ragged_ok (vec pred) (vec tru) kw =
         Inr (c_index_reference np_greater pred (ravel c) (map astype_float32 (ravel s)))"
  using one rag c_index_ours_on_vectors[OF kc ks lp lt ls rng, of ragged_ok]
  by (auto simp: Let_def)

theorem c_index_ours_reference_witness:
  "censor_flag \<lparr>censor_flag = Some (vec [1, 1, 0, 0]), survival_time = Some (vec [1, 2, 3, 4])\<rparr>
     = Some (vec [1, 1, 0, 0]) \<and>
   survival_time \<lparr>censor_flag = Some (vec [1, 1, 0, 0]), survival_time = Some (vec [1, 2, 3, 4])\<rparr>
     = Some (vec [1, 2, 3, 4]) \<and>
   length [1, 0, 2, 5 :: real] = length (ravel (vec [1, 1, 0, 0 :: int])) \<and>
   length [0, 0, 0, 0 :: real] = length (ravel (vec [1, 1, 0, 0 :: int])) \<and>
   length (ravel (vec [1, 2, 3, 4 :: real])) = length (ravel (vec [1, 1, 0, 0 :: int])) \<and>
   list_all (\<lambda>f. - 128 \<le> f \<and> f \<le> 127) (ravel (vec [1, 1, 0, 0 :: int])) \<and>
   list_all (\<lambda>i. comparison_set np_greater (map astype_float32 (ravel (vec [1, 2, 3, 4]))) i \<noteq> [])
            (event_indices (ravel (vec [1, 1, 0, 0]))) \<and>
   event_indices (ravel (vec [1, 1, 0, 0])) \<noteq> [] \<and>
   c_index_ours False (vec [1, 0, 2, 5]) (vec [0, 0, 0, 0])
       \<lparr>censor_flag = Some (vec [1, 1, 0, 0]), survival_time = Some (vec [1, 2, 3, 4])\<rparr>
     = Inr (c_index_reference np_greater [1, 0, 2, 5] (ravel (vec [1, 1, 0, 0]))
              (map astype_float32 (ravel (vec [1, 2, 3, 4])))) \<and>
   c_index_reference np_greater [1, 0, 2, 5] (ravel (vec [1, 1, 0, 0]))
              (map astype_float32 (ravel (vec [1, 2, 3, 4]))) = Finite (4/5)"
proof -
  have r: "list_all (\<lambda>f. - 128 \<le> f \<and> f \<le> 127) (ravel (vec [1, 1, 0, 0 :: int]))"
    by simp
  have j: "list_all (\<lambda>i. comparison_set np_greater (map astype_float32 (ravel (vec [1, 2, 3, 4]))) i \<noteq> [])
            (event_indices (ravel (vec [1, 1, 0, 0])))"
    by code_simp
  have n: "event_indices (ravel (vec [1, 1, 0, 0])) \<noteq> []"
    by code_simp
  have v: "c_index_reference np_greater [1, 0, 2, 5] (ravel (vec [1, 1, 0, 0]))
              (map astype_float32 (ravel (vec [1, 2, 3, 4]))) = Finite (4/5)"
    by code_simp
  have one: "\<exists>i\<in>set (event_indices (ravel (vec [1, 1, 0, 0]))).
      comparison_set np_greater (map astype_float32 (ravel (vec [1, 2, 3, 4]))) i \<noteq> []"
    using j n by (cases "event_indices (ravel (vec [1, 1, 0, 0]))") (auto simp: list_all_iff)
  have rag: "False \<or> (\<forall>i\<in>set (event_indices (ravel (vec [1, 1, 0, 0]))).
      comparison_set np_greater (map astype_float32 (ravel (vec [1, 2, 3, 4]))) i \<noteq> [])"
    using j by (simp add: list_all_iff)
  have "c_index_ours False (vec [1, 0, 2, 5]) (vec [0, 0, 0, 0])
       \<lparr>censor_flag = Some (vec [1, 1, 0, 0]), survival_time = Some (vec [1, 2, 3, 4])\<rparr>
     = Inr (c_index_reference np_greater [1, 0, 2, 5] (ravel (vec [1, 1, 0, 0]))
              (map astype_float32 (ravel (vec [1, 2, 3, 4]))))"
    using r by (intro c_index_ours_reference [OF _ _ _ _ _ _ one rag]) (simp_all add: list_all_iff)
  with r j n v show ?thesis by simp
qed

end
